theory Spec2Isabelle
  imports Complex_Main
begin

section \<open>Modal manager (class \<open>Modals\<close>)\<close>

text \<open>
  A JavaScript \<open>Symbol\<close> is compared by identity only, so a symbol is modelled by
  an opaque identifier. The private field \<open>opening_\<close> is either \<open>null\<close> or an
  object holding the symbol of the open modal and its priority.
\<close>

type_synonym symbol = nat

record Opening =
  symbol :: symbol
  priority :: real

record Modals =
  opening_obj :: "Opening option"

definition opening_of :: "Modals \<Rightarrow> symbol option" where
  "opening_of m = map_option symbol (opening_obj m)"

definition priority_of :: "Modals \<Rightarrow> real option" where
  "priority_of m = map_option priority (opening_obj m)"

definition isOpen :: "Modals \<Rightarrow> bool" where
  "isOpen m = (opening_obj m \<noteq> None)"

text \<open>
  \<open>open(symbol, priority)\<close> returns the boolean result and the new object state; a
  call without priority passes the default 0. The methods are named \<open>open_modal\<close>
  and \<open>close_modal\<close> here.
\<close>

definition open_modal :: "symbol \<Rightarrow> real \<Rightarrow> Modals \<Rightarrow> bool \<times> Modals" where
  "open_modal s pr m =
     (if opening_obj m = None \<or> priority (the (opening_obj m)) \<le> pr
      then (True, m\<lparr>opening_obj := Some \<lparr>symbol = s, priority = pr\<rparr>\<rparr>)
      else (False, m))"

text \<open>
  \<open>close(symbol?)\<close>: the argument is \<open>None\<close> when the call passes no symbol
  (\<open>undefined\<close>). With no modal open, \<open>this.opening_?.symbol\<close> is \<open>undefined\<close>,
  which differs from every symbol.
\<close>

definition close_modal :: "symbol option \<Rightarrow> Modals \<Rightarrow> Modals" where
  "close_modal arg m =
     (if arg = None \<or> (opening_obj m \<noteq> None \<and> Some (symbol (the (opening_obj m))) = arg)
      then m\<lparr>opening_obj := None\<rparr>
      else m)"

section \<open>Data model (\<open>Path.ts\<close>, \<open>Config.ts\<close>, \<open>Format.ts\<close>)\<close>

text \<open>
  Coordinates and all other JavaScript numbers are modelled by real numbers.
  \<open>Control\<close> extends \<open>Vector\<close>; a control and a path both carry the
  \<open>PathTreeItem\<close> fields \<open>uid\<close>, \<open>lock\<close> and \<open>visible\<close>, which are
  written qualified (\<open>Control.uid\<close>, \<open>Path.uid\<close>) below.
\<close>

record Vector =
  x :: real
  y :: real

record Control = Vector +
  uid :: string
  lock :: bool
  visible :: bool

text \<open>
  A control is an object, and two segments may hold the very same object. Object
  identity is modelled by a reference (an address); the store maps a reference to the
  object's fields. A slot of a segment's \<open>controls\<close> array holds a reference, or
  \<open>None\<close> for JavaScript's \<open>undefined\<close>.
\<close>

type_synonym ref = nat

type_synonym store = "ref \<rightharpoonup> Control"

record Segment =
  controls :: "ref option list"

text \<open>
  Modelled from the spec: the accessors \<open>Segment.first\<close> and \<open>Segment.last\<close> of
  \<open>Path.ts\<close>, which is not part of the sources. A segment is an ordered list of
  control points whose first and last entries are its end points. Reading an empty
  array yields \<open>undefined\<close>; writing index 0 of an empty array extends it.
\<close>

definition seg_first :: "Segment \<Rightarrow> ref option" where
  "seg_first sg = (case controls sg of [] \<Rightarrow> None | c # _ \<Rightarrow> c)"

definition seg_last :: "Segment \<Rightarrow> ref option" where
  "seg_last sg = (case controls sg of [] \<Rightarrow> None | _ # _ \<Rightarrow> last (controls sg))"

definition set_first :: "ref option \<Rightarrow> Segment \<Rightarrow> Segment" where
  "set_first v sg = sg\<lparr>controls := (case controls sg of [] \<Rightarrow> [v] | _ # cs \<Rightarrow> v # cs)\<rparr>"

text \<open>
  The limits of an editable range are objects with a value and a label. The format
  reaction compares two limits with \<open>===\<close>, that is by identity, so a range holds the
  references of its two limit objects.
\<close>

record NumberWithLabel =
  limit_value :: real
  limit_label :: string

record EditableNumberRange =
  minLimit :: ref
  maxLimit :: ref
  step :: real
  from_value :: real
  to_value :: real

datatype BentRateApplicationDirection = HighToLow | LowToHigh

record PathConfig =
  speedLimit :: EditableNumberRange
  bentRateApplicableRange :: EditableNumberRange
  bentRateApplicationDirection :: BentRateApplicationDirection

record Path =
  uid :: string
  lock :: bool
  visible :: bool
  name :: string
  segments :: "Segment list"
  pc :: PathConfig

text \<open>\<open>UnitOfLength\<close> is a numeric enumeration.\<close>

type_synonym UnitOfLength = real

record GeneralConfig =
  robotWidth :: real
  robotHeight :: real
  robotIsHolonomic :: bool
  showRobot :: bool
  uol :: UnitOfLength
  pointDensity :: real
  controlMagnetDistance :: real

text \<open>
  A format object holds its initialisation flag and its general configuration
  (\<open>getGeneralConfig()\<close> returns the private field \<open>gc\<close>). The methods
  \<open>init\<close>, \<open>createNewInstance\<close> and \<open>buildPathConfig\<close> of the \<open>Format\<close>
  interface differ between formats; the operations below take them as arguments.
\<close>

record Format =
  isInit :: bool
  gc :: GeneralConfig

definition getGeneralConfig :: "Format \<Rightarrow> GeneralConfig" where
  "getGeneralConfig f = gc f"

record PathFileData =
  pfd_gc :: GeneralConfig
  pfd_paths :: "Path list"

section \<open>Command history (\<open>Command.ts\<close>)\<close>

text \<open>
  Modelled from the spec: the class \<open>CommandHistory\<close> of \<open>Command.ts\<close>, which is
  not part of the sources (section 4.4 of the specification), and the commands it
  records. A Command is "a reversible unit of model mutation" with the two effects
  \<open>apply()\<close> and \<open>inverse()\<close> on the model state \<open>'m\<close>, and \<open>execute(C); undo()\<close>
  restores what \<open>C\<close> touched: a command is a pair of effects of which the second
  undoes the first. The names \<open>done\<close> and \<open>apply\<close> are reserved words, hence
  \<open>done_log\<close> and \<open>cmd_apply\<close>.
\<close>

typedef 'm Command = "{ai :: ('m \<Rightarrow> 'm) \<times> ('m \<Rightarrow> 'm). \<forall>st. snd ai (fst ai st) = st}"
  by (rule exI[of _ "(\<lambda>st. st, \<lambda>st. st)"]) simp

setup_lifting type_definition_Command

lift_definition cmd_apply :: "'m Command \<Rightarrow> 'm \<Rightarrow> 'm" is fst .

lift_definition cmd_inverse :: "'m Command \<Rightarrow> 'm \<Rightarrow> 'm" is snd .

text \<open>
  Modelled from the spec: adjacent commands may merge into a single entry, "so one undo
  reverts a whole gesture". The merged entry applies the earlier command and then the
  later one, and its inverse undoes the later one and then the earlier one.
\<close>

lift_definition mergeCommands :: "'m Command \<Rightarrow> 'm Command \<Rightarrow> 'm Command"
  is "\<lambda>a c. (\<lambda>st. fst c (fst a st), \<lambda>st. snd a (snd c st))"
  by simp

text \<open>
  Modelled from the spec: the history keeps the log \<open>done\<close> (oldest first), the log
  \<open>undone\<close> and the saved marker, a position in \<open>done\<close> or \<open>None\<close> once the
  saved state is unreachable.
\<close>

record 'c CommandHistory =
  done_log :: "'c list"
  undone_log :: "'c list"
  savedMarker :: "nat option"

definition historyPosition :: "'c CommandHistory \<Rightarrow> nat" where
  "historyPosition h = length (done_log h)"

definition undoCount :: "'c CommandHistory \<Rightarrow> nat" where
  "undoCount h = length (done_log h)"

definition redoCount :: "'c CommandHistory \<Rightarrow> nat" where
  "redoCount h = length (undone_log h)"

text \<open>Modelled from the spec: \<open>isModified()\<close> is true unless the current position equals the saved marker.\<close>

definition isModified :: "'c CommandHistory \<Rightarrow> bool" where
  "isModified h = (savedMarker h \<noteq> Some (historyPosition h))"

text \<open>
  Modelled from the spec: \<open>clearHistory()\<close> empties both logs and resets the saved marker to "nothing
  modified", the position of the empty log.
\<close>

definition clearHistory :: "'c CommandHistory \<Rightarrow> 'c CommandHistory" where
  "clearHistory h = h\<lparr>done_log := [], undone_log := [], savedMarker := Some 0\<rparr>"


text \<open>Modelled from the spec: \<open>undo()\<close>. Pop the last entry of \<open>done\<close>, run its inverse, push it to \<open>undone\<close>.\<close>

definition undo :: "'m Command CommandHistory \<times> 'm \<Rightarrow> 'm Command CommandHistory \<times> 'm" where
  "undo hs =
     (let h = fst hs in
      if done_log h = [] then hs
      else (let c = last (done_log h)
            in (h\<lparr>done_log := butlast (done_log h), undone_log := undone_log h @ [c]\<rparr>,
                cmd_inverse c (snd hs))))"

text \<open>Modelled from the spec: \<open>redo()\<close>. Pop the last entry of \<open>undone\<close>, run its apply, push it to \<open>done\<close>.\<close>

definition redo :: "'m Command CommandHistory \<times> 'm \<Rightarrow> 'm Command CommandHistory \<times> 'm" where
  "redo hs =
     (let h = fst hs in
      if undone_log h = [] then hs
      else (let c = last (undone_log h)
            in (h\<lparr>done_log := done_log h @ [c], undone_log := butlast (undone_log h)\<rparr>,
                cmd_apply c (snd hs))))"





section \<open>Unit conversion (\<open>Unit.ts\<close>)\<close>

text \<open>
  Modelled from the spec: the class \<open>UnitConverter\<close> of \<open>Unit.ts\<close>, which is not
  part of the sources (section 4.1 of the specification). A converter between two units
  holds a fixed scale ratio computed from a unit table (the size of every unit in a
  common base unit, an argument here) and converts a scalar, or the two coordinates of
  a vector, in either direction. Numbers are exact reals: rounding is not modelled.
\<close>

record UnitConverter =
  ratio :: real

definition newUnitConverter ::
  "(UnitOfLength \<Rightarrow> real) \<Rightarrow> UnitOfLength \<Rightarrow> UnitOfLength \<Rightarrow> UnitConverter" where
  "newUnitConverter unitTable unitA unitB = \<lparr>ratio = unitTable unitA / unitTable unitB\<rparr>"

definition fromAtoB :: "UnitConverter \<Rightarrow> real \<Rightarrow> real" where
  "fromAtoB uc v = v * ratio uc"

definition fromBtoA :: "UnitConverter \<Rightarrow> real \<Rightarrow> real" where
  "fromBtoA uc v = v / ratio uc"

definition vectorAtoB :: "UnitConverter \<Rightarrow> Vector \<Rightarrow> Vector" where
  "vectorAtoB uc v = \<lparr>x = fromAtoB uc (x v), y = fromAtoB uc (y v)\<rparr>"

definition vectorBtoA :: "UnitConverter \<Rightarrow> Vector \<Rightarrow> Vector" where
  "vectorBtoA uc v = \<lparr>x = fromBtoA uc (x v), y = fromBtoA uc (y v)\<rparr>"

section \<open>The application store (\<open>MainApp.tsx\<close>)\<close>

text \<open>
  The observable fields of \<open>MainApp\<close> that the operations below read or write.
  \<open>magnet\<close> is \<open>None\<close> for the vector \<open>(Infinity, Infinity)\<close>;
  \<open>lastInterestedPath\<close> holds the uid of the referenced path; \<open>robot_position\<close>
  is \<open>robot.position\<close>. The history is the private field \<open>_history\<close>; its
  command type is left open.
\<close>

record FieldDisplay =
  offset :: Vector
  scale :: real

record 'c MainApp =
  format :: Format
  usingUOL :: UnitOfLength
  paths :: "Path list"
  selected :: "string list"
  selectedBefore :: "string list"
  lastInterestedPath :: "string option"
  expanded :: "string list"
  magnet :: "Vector option"
  history :: "'c CommandHistory"
  robot_position :: Control
  fieldDisplay :: FieldDisplay

text \<open>The getter \<open>gc\<close>: \<open>this.format.getGeneralConfig()\<close>.\<close>

definition app_gc :: "'c MainApp \<Rightarrow> GeneralConfig" where
  "app_gc app = getGeneralConfig (format app)"

definition resetUserControl :: "'c MainApp \<Rightarrow> 'c MainApp" where
  "resetUserControl app =
     app\<lparr>selected := [], expanded := [], lastInterestedPath := None, magnet := None,
         robot_position := (robot_position app)\<lparr>Control.visible := False\<rparr>\<rparr>"

definition resetFieldDisplay :: "'c MainApp \<Rightarrow> 'c MainApp" where
  "resetFieldDisplay app = app\<lparr>fieldDisplay := \<lparr>offset = \<lparr>x = 0, y = 0\<rparr>, scale = 1\<rparr>\<rparr>"

subsection \<open>Loading a document: \<open>setPathFileData\<close>\<close>

text \<open>
  The inner loop of \<open>setPathFileData\<close>, for \<open>j = 1, ..., length - 1\<close>:
  \<open>path.segments[j].first = path.segments[j - 1].last\<close>. The segments of one path
  are distinct objects, so the assignment changes the segment at index \<open>j\<close> only.
\<close>

definition linkStep :: "nat \<Rightarrow> Segment list \<Rightarrow> Segment list" where
  "linkStep j sgs = sgs[j := set_first (seg_last (sgs ! (j - 1))) (sgs ! j)]"

definition linkSegments :: "Segment list \<Rightarrow> Segment list" where
  "linkSegments sgs = fold linkStep [1..<length sgs] sgs"

text \<open>
  The body of the loop over \<open>pfd.paths\<close>, on one path: the name is sanitised
  (\<open>sanitize\<close> stands for \<open>DOMPurify.sanitize\<close>) and replaced by \<open>Path\<close> when
  nothing is left, then the segments are linked.
\<close>

definition loadPath :: "(string \<Rightarrow> string) \<Rightarrow> Path \<Rightarrow> Path" where
  "loadPath sanitize path =
     (let temp = sanitize (name path)
      in path\<lparr>name := (if temp = [] then ''Path'' else temp),
               segments := linkSegments (segments path)\<rparr>)"

text \<open>
  \<open>setPathFileData\<close> and \<open>newPathFile\<close> assign \<open>this.format\<close> a format that has
  been initialised before ("Suspend format reaction"), so the format reaction they
  trigger returns at once; only the bodies of the two methods are modelled.
\<close>

definition setPathFileData ::
  "(string \<Rightarrow> string) \<Rightarrow> Format \<Rightarrow> PathFileData \<Rightarrow> 'c MainApp \<Rightarrow> 'c MainApp" where
  "setPathFileData sanitize fmt pfd app =
     (let loaded = map (loadPath sanitize) (pfd_paths pfd);
          app1 = app\<lparr>expanded := map Path.uid loaded\<rparr>;
          app2 = app1\<lparr>format := fmt, usingUOL := uol (getGeneralConfig fmt), paths := loaded\<rparr>;
          app3 = resetFieldDisplay (resetUserControl app2)
      in app3\<lparr>history := clearHistory (history app3)\<rparr>)"

subsection \<open>New document: \<open>newPathFile\<close>\<close>

definition newPathFile ::
  "(Format \<Rightarrow> Format) \<Rightarrow> (Format \<Rightarrow> Format) \<Rightarrow> 'c MainApp \<Rightarrow> 'c MainApp" where
  "newPathFile createNewInstance init app =
     (let newFormat = init (createNewInstance (format app));
          app1 = app\<lparr>format := newFormat\<rparr>;
          app2 = app1\<lparr>usingUOL := uol (app_gc app1), paths := []\<rparr>;
          app3 = resetFieldDisplay (resetUserControl app2)
      in app3\<lparr>history := clearHistory (history app3)\<rparr>)"

subsection \<open>The format reaction\<close>

text \<open>
  The reaction on \<open>this.format\<close> runs after the field has changed: \<open>newFormat\<close> is
  the format object the store now holds, \<open>oldFormat\<close> the one it held before.
  \<open>init\<close>, \<open>buildPathConfig\<close>, \<open>convertGeneralConfigUOL\<close> and
  \<open>convertPathConfigPointDensity\<close> (\<open>Config.ts\<close>, \<open>Format.ts\<close>) are not part of the
  sources and are arguments; the two converters mutate their first argument and
  here return it. The test \<open>newPC.speedLimit.minLimit === path.pc.speedLimit.minLimit\<close>
  compares two limit objects by identity, here their references.
\<close>

definition reactPathConfig ::
  "PathConfig \<Rightarrow> (PathConfig \<Rightarrow> real \<Rightarrow> real \<Rightarrow> PathConfig) \<Rightarrow> real \<Rightarrow> real \<Rightarrow> Path \<Rightarrow> Path" where
  "reactPathConfig builtPC convertPathConfigPointDensity oldDensity newDensity path =
     (let newPC = builtPC;
          newPC1 = (if minLimit (speedLimit newPC) = minLimit (speedLimit (pc path)) \<and>
                       maxLimit (speedLimit newPC) = maxLimit (speedLimit (pc path))
                    then newPC\<lparr>speedLimit := speedLimit (pc path)\<rparr> else newPC);
          newPC2 = newPC1\<lparr>bentRateApplicableRange := bentRateApplicableRange (pc path)\<rparr>
      in path\<lparr>pc := convertPathConfigPointDensity newPC2 oldDensity newDensity\<rparr>)"

definition formatReaction ::
  "(Format \<Rightarrow> Format) \<Rightarrow> (Format \<Rightarrow> PathConfig) \<Rightarrow>
   (GeneralConfig \<Rightarrow> UnitOfLength \<Rightarrow> GeneralConfig) \<Rightarrow>
   (PathConfig \<Rightarrow> real \<Rightarrow> real \<Rightarrow> PathConfig) \<Rightarrow>
   Format \<Rightarrow> 'c MainApp \<Rightarrow> 'c MainApp" where
  "formatReaction init buildPathConfig convertGeneralConfigUOL convertPathConfigPointDensity
       oldFormat app =
     (if isInit (format app) then app
      else
        (let newFormat = init (format app);
             oldGC = getGeneralConfig oldFormat;
             keepPointDensity = pointDensity (getGeneralConfig newFormat);
             gc1 = (getGeneralConfig newFormat)\<lparr>robotWidth := robotWidth oldGC\<rparr>;
             gc2 = gc1\<lparr>robotHeight := robotHeight oldGC\<rparr>;
             gc3 = convertGeneralConfigUOL gc2 (uol oldGC);
             gc4 = gc3\<lparr>pointDensity := keepPointDensity\<rparr>;
             newFormat1 = newFormat\<lparr>gc := gc4\<rparr>;
             paths1 = map (reactPathConfig (buildPathConfig newFormat1)
                             convertPathConfigPointDensity
                             (pointDensity oldGC) (pointDensity gc4)) (paths app);
             app1 = resetUserControl (app\<lparr>format := newFormat1, paths := paths1\<rparr>)
         in app1\<lparr>history := clearHistory (history app1)\<rparr>))"

subsection \<open>Area selection\<close>

text \<open>
  \<open>Array.from(new Set(xs))\<close> keeps the first occurrence of every element, in order.
\<close>

definition uniq :: "'a list \<Rightarrow> 'a list" where
  "uniq xs = rev (remdups (rev xs))"

text \<open>
  The getter \<open>Path.controls\<close> and the test \<open>Control.isWithinArea\<close> belong to
  \<open>Path.ts\<close>, which is not part of the sources: \<open>controlsOf\<close> and
  \<open>isWithinArea\<close> are arguments.
\<close>

definition selectablePaths :: "'c MainApp \<Rightarrow> Path list" where
  "selectablePaths app = filter (\<lambda>path. Path.visible path \<and> \<not> Path.lock path) (paths app)"

definition selectableControls :: "(Path \<Rightarrow> Control list) \<Rightarrow> 'c MainApp \<Rightarrow> Control list" where
  "selectableControls controlsOf app =
     concat (map (\<lambda>path. filter (\<lambda>control. Control.visible control \<and> \<not> Control.lock control)
                            (controlsOf path))
                 (selectablePaths app))"

definition startAreaSelection :: "'c MainApp \<Rightarrow> 'c MainApp" where
  "startAreaSelection app = app\<lparr>selectedBefore := selected app\<rparr>"

definition highlightedIn ::
  "(Control \<Rightarrow> Vector \<Rightarrow> Vector \<Rightarrow> bool) \<Rightarrow> (Path \<Rightarrow> Control list) \<Rightarrow>
   Vector \<Rightarrow> Vector \<Rightarrow> 'c MainApp \<Rightarrow> string list" where
  "highlightedIn isWithinArea controlsOf from_v to_v app =
     (let fixedFrom = \<lparr>x = min (x from_v) (x to_v), y = min (y from_v) (y to_v)\<rparr>;
          fixedTo = \<lparr>x = max (x from_v) (x to_v), y = max (y from_v) (y to_v)\<rparr>
      in map Control.uid
           (filter (\<lambda>control. isWithinArea control fixedFrom fixedTo)
                   (selectableControls controlsOf app)))"

definition updateAreaSelection ::
  "(Control \<Rightarrow> Vector \<Rightarrow> Vector \<Rightarrow> bool) \<Rightarrow> (Path \<Rightarrow> Control list) \<Rightarrow>
   Vector \<Rightarrow> Vector \<Rightarrow> 'c MainApp \<Rightarrow> 'c MainApp" where
  "updateAreaSelection isWithinArea controlsOf from_v to_v app =
     (let highlighted = highlightedIn isWithinArea controlsOf from_v to_v app;
          sel = filter (\<lambda>u. \<not> (u \<in> set (selectedBefore app) \<and> u \<in> set highlighted))
                       (selectedBefore app @ highlighted)
      in app\<lparr>selected := uniq sel\<rparr>)"

subsection \<open>Re-linking by coordinate\<close>

text \<open>
  Following the specification's words ("re-linking by coordinate+order"): the segments
  of a path can be linked by coordinate and order when, for every adjacent pair, the last
  end point of the earlier segment and the first end point of the later one have the
  same coordinates in the store.
\<close>

definition coordOf :: "store \<Rightarrow> ref option \<Rightarrow> (real \<times> real) option" where
  "coordOf st r = (case r of None \<Rightarrow> None | Some a \<Rightarrow> map_option (\<lambda>c. (x c, y c)) (st a))"

fun coordinateLinked :: "store \<Rightarrow> Segment list \<Rightarrow> bool" where
  "coordinateLinked st (a # b # rest) =
     (coordOf st (seg_last a) = coordOf st (seg_first b) \<and> coordinateLinked st (b # rest))"
| "coordinateLinked st _ = True"

section \<open>Sampling engine (\<open>Calculation.ts\<close>)\<close>

text \<open>
  Modelled from the spec: the functions \<open>sample\<close> (\<open>getPathSamplePoints\<close>) and
  \<open>resampleUniform\<close> (\<open>getUniformPointsFromSamples\<close>) of \<open>Calculation.ts\<close>, and
  the vector and segment evaluation they use (\<open>Path.ts\<close>), none of which is part of
  the sources (sections 4.1 to 4.3 of the specification). The engine sees a path as the
  control points of its segments, in order; numbers are exact reals.
\<close>

definition distance :: "Vector \<Rightarrow> Vector \<Rightarrow> real" where
  "distance p q = sqrt ((x p - x q)\<^sup>2 + (y p - y q)\<^sup>2)"

definition interpolate :: "Vector \<Rightarrow> Vector \<Rightarrow> real \<Rightarrow> Vector" where
  "interpolate p q t = \<lparr>x = x p + (x q - x p) * t, y = y p + (y q - y p) * t\<rparr>"

definition cubic :: "Vector \<Rightarrow> Vector \<Rightarrow> Vector \<Rightarrow> Vector \<Rightarrow> real \<Rightarrow> Vector" where
  "cubic p0 p1 p2 p3 t =
     \<lparr>x = (1 - t)^3 * x p0 + 3 * (1 - t)\<^sup>2 * t * x p1 + 3 * (1 - t) * t\<^sup>2 * x p2 + t^3 * x p3,
      y = (1 - t)^3 * y p0 + 3 * (1 - t)\<^sup>2 * t * y p1 + 3 * (1 - t) * t\<^sup>2 * y p2 + t^3 * y p3\<rparr>"

text \<open>
  Modelled from the spec: a segment is linear (2 control points) or cubic (4 control points); any other count is
  a malformed segment. \<open>position\<close> is used on well-formed segments only.
\<close>

datatype error = ValidationError

definition wellFormed :: "Vector list \<Rightarrow> bool" where
  "wellFormed pts = (length pts = 2 \<or> length pts = 4)"

definition position :: "Vector list \<Rightarrow> real \<Rightarrow> Vector" where
  "position pts t =
     (if length pts = 2 then interpolate (pts ! 0) (pts ! 1) t
      else cubic (pts ! 0) (pts ! 1) (pts ! 2) (pts ! 3) t)"

text \<open>
  Modelled from the spec: Step 1, parametric sampling. The arc length of a segment is estimated by the sum of
  the chord lengths of a probe of \<open>probe\<close> equal parametric steps; the step count is
  the ceiling of the estimate over the density, at least 1; the segment is evaluated at
  the evenly spaced parameters \<open>0, 1/n, ..., 1\<close>. The outputs are concatenated, the
  shared end point of adjacent segments appearing once.
\<close>

definition arcLengthEstimate :: "nat \<Rightarrow> Vector list \<Rightarrow> real" where
  "arcLengthEstimate probe pts =
     sum_list (map (\<lambda>k. distance (position pts (real k / real probe))
                                   (position pts (real (Suc k) / real probe)))
                   [0..<probe])"

definition stepCount :: "nat \<Rightarrow> Vector list \<Rightarrow> real \<Rightarrow> nat" where
  "stepCount probe pts density = max 1 (nat \<lceil>arcLengthEstimate probe pts / density\<rceil>)"

definition segmentSamples :: "nat \<Rightarrow> Vector list \<Rightarrow> real \<Rightarrow> Vector list" where
  "segmentSamples probe pts density =
     map (\<lambda>k. position pts (real k / real (stepCount probe pts density)))
         [0..<Suc (stepCount probe pts density)]"

definition sample :: "nat \<Rightarrow> Vector list list \<Rightarrow> real \<Rightarrow> error + Vector list" where
  "sample probe path density =
     (if list_all wellFormed path
      then Inr (case path of
                  [] \<Rightarrow> []
                | sg # rest \<Rightarrow> segmentSamples probe sg density @
                                concat (map (\<lambda>s. tl (segmentSamples probe s density)) rest))
      else Inl ValidationError)"

text \<open>
  Modelled from the spec: Step 2, uniform resampling. The walk goes through the raw points with the distance
  \<open>acc\<close> accumulated since the last multiple of the density. On the piece from
  \<open>p\<close> to \<open>q\<close>, of length \<open>len\<close>, the accumulated distance crosses \<open>n\<close>
  multiples, the \<open>k\<close>-th at distance \<open>k * density - acc\<close> from \<open>p\<close>; a point is
  emitted there by linear interpolation between \<open>p\<close> and \<open>q\<close>. The walk returns the
  emitted points and the distance left over at the end.
\<close>

fun resampleWalk :: "real \<Rightarrow> real \<Rightarrow> Vector \<Rightarrow> Vector list \<Rightarrow> Vector list \<times> real" where
  "resampleWalk density acc p [] = ([], acc)"
| "resampleWalk density acc p (q # qs) =
     (let len = distance p q;
          n = nat \<lfloor>(acc + len) / density\<rfloor>;
          emitted = map (\<lambda>k. interpolate p q ((real k * density - acc) / len)) [1..<Suc n];
          walked = resampleWalk density (acc + len - real n * density) q qs
      in (emitted @ fst walked, snd walked))"

text \<open>
  Modelled from the spec: the output starts with the literal first raw point and ends with the literal last one,
  which is appended unless the walk ended exactly on a multiple of the density (it is
  then the last emitted point already). Only the positions of the sample points are
  modelled: the speed and heading of Step 3 do not move a point.
\<close>

definition resampleUniform :: "Vector list \<Rightarrow> real \<Rightarrow> Vector list" where
  "resampleUniform rawPoints density =
     (case rawPoints of
        [] \<Rightarrow> []
      | p # rest \<Rightarrow>
          (let walked = resampleWalk density 0 p rest
           in p # fst walked @ (if snd walked = 0 then [] else [last rawPoints])))"

text \<open>The distances between consecutive points of a sequence.\<close>

fun consecutiveDistances :: "Vector list \<Rightarrow> real list" where
  "consecutiveDistances (p # q # rest) = distance p q # consecutiveDistances (q # rest)"
| "consecutiveDistances _ = []"

text \<open>The length of the polyline through a sequence of points.\<close>

definition pathLength :: "Vector list \<Rightarrow> real" where
  "pathLength pts = sum_list (consecutiveDistances pts)"

text \<open>
  Following the specification's words ("the exact crossing distance"): the point of the
  polyline \<open>p, q, ...\<close> at distance \<open>s\<close> from \<open>p\<close>, measured along the polyline.
\<close>

fun pointAt :: "Vector \<Rightarrow> Vector list \<Rightarrow> real \<Rightarrow> Vector" where
  "pointAt p [] s = p"
| "pointAt p (q # qs) s =
     (if s \<le> distance p q \<and> 0 < distance p q
      then interpolate p q (s / distance p q)
      else pointAt q qs (s - distance p q))"

section \<open>Example documents\<close>

text \<open>
  A store with four controls and a path of two segments whose end points are neither
  shared nor at equal coordinates; the path's configuration and a freshly built one
  (its limit objects are new, so their references differ from the path's); a general
  configuration, a format that is not yet initialised, an initialised format with a
  larger robot and density 5, and an application state with a non-empty history.
\<close>

definition ex_control :: "string \<Rightarrow> real \<Rightarrow> real \<Rightarrow> Control" where
  "ex_control u a b = \<lparr>x = a, y = b, Control.uid = u, Control.lock = False, Control.visible = True\<rparr>"

definition ex_store :: store where
  "ex_store = [0 \<mapsto> ex_control ''c0'' 0 0, 1 \<mapsto> ex_control ''c1'' 1 1,
               2 \<mapsto> ex_control ''c2'' 5 5, 3 \<mapsto> ex_control ''c3'' 6 6]"

definition ex_pc :: PathConfig where
  "ex_pc = \<lparr>speedLimit = \<lparr>minLimit = 10, maxLimit = 11, step = 1, from_value = 10, to_value = 20\<rparr>,
            bentRateApplicableRange =
              \<lparr>minLimit = 12, maxLimit = 13, step = 1 / 1000, from_value = 1 / 50, to_value = 3 / 10\<rparr>,
            bentRateApplicationDirection = HighToLow\<rparr>"

definition ex_built_pc :: PathConfig where
  "ex_built_pc =
     \<lparr>speedLimit = \<lparr>minLimit = 20, maxLimit = 21, step = 1, from_value = 40, to_value = 120\<rparr>,
      bentRateApplicableRange =
        \<lparr>minLimit = 22, maxLimit = 23, step = 1 / 1000, from_value = 0, to_value = 1 / 10\<rparr>,
      bentRateApplicationDirection = HighToLow\<rparr>"

definition ex_path :: Path where
  "ex_path = \<lparr>uid = ''p1'', lock = False, visible = True, name = ''first'',
              segments = [\<lparr>controls = [Some 0, Some 1]\<rparr>, \<lparr>controls = [Some 2, Some 3]\<rparr>],
              pc = ex_pc\<rparr>"

definition ex_gc :: "real \<Rightarrow> GeneralConfig" where
  "ex_gc d = \<lparr>robotWidth = 30, robotHeight = 30, robotIsHolonomic = False, showRobot = False,
              uol = 10, pointDensity = d, controlMagnetDistance = 5\<rparr>"

definition ex_format :: "real \<Rightarrow> Format" where
  "ex_format d = \<lparr>isInit = False, gc = ex_gc d\<rparr>"

definition ex_app :: "unit MainApp" where
  "ex_app = \<lparr>format = ex_format 2, usingUOL = 10, paths = [], selected = [], selectedBefore = [],
             lastInterestedPath = None, expanded = [], magnet = None,
             history = \<lparr>done_log = [()], undone_log = [()], savedMarker = None\<rparr>,
             robot_position = ex_control ''robot'' 0 0,
             fieldDisplay = \<lparr>offset = \<lparr>x = 0, y = 0\<rparr>, scale = 1\<rparr>\<rparr>"

definition ex_pfd :: PathFileData where
  "ex_pfd = \<lparr>pfd_gc = ex_gc 2, pfd_paths = [ex_path]\<rparr>"

definition ex_old_format :: Format where
  "ex_old_format = \<lparr>isInit = True, gc = (ex_gc 5)\<lparr>robotWidth := 45, robotHeight := 40\<rparr>\<rparr>"

definition ex_app2 :: "unit MainApp" where
  "ex_app2 = ex_app\<lparr>paths := [ex_path]\<rparr>"

text \<open>A counter as model state, two commands that add to it, and an empty history.\<close>

lift_definition ex_inc :: "int Command" is "(\<lambda>n. n + 1, \<lambda>n. n - 1)"
  by simp


definition ex_history :: "int Command CommandHistory" where
  "ex_history = \<lparr>done_log = [], undone_log = [], savedMarker = Some 0\<rparr>"

text \<open>A path of two linear segments that meet at a right angle.\<close>

definition ex_corner :: "Vector list list" where
  "ex_corner = [[\<lparr>x = 0, y = 0\<rparr>, \<lparr>x = 4, y = 0\<rparr>], [\<lparr>x = 4, y = 0\<rparr>, \<lparr>x = 4, y = 6\<rparr>]]"

text \<open>
  For the area selection: one possible containment test, the controls of the example
  path, and a state in which one control and one stale id are selected.
\<close>

definition ex_isWithinArea :: "Control \<Rightarrow> Vector \<Rightarrow> Vector \<Rightarrow> bool" where
  "ex_isWithinArea c a b = (x a \<le> x c \<and> x c \<le> x b \<and> y a \<le> y c \<and> y c \<le> y b)"

definition ex_controlsOf :: "Path \<Rightarrow> Control list" where
  "ex_controlsOf path =
     [ex_control ''c0'' 0 0, ex_control ''c1'' 1 1, ex_control ''c2'' 5 5, ex_control ''c3'' 6 6]"

definition ex_app3 :: "unit MainApp" where
  "ex_app3 = ex_app\<lparr>paths := [ex_path], selected := [''c1'', ''zz'']\<rparr>"

section \<open>Properties of the modal manager\<close>

text \<open>
  Claim C10. \<open>open(symbol, priority)\<close> returns true exactly when no modal is open or
  the given priority is at least the priority of the open modal; when it returns true
  the given symbol becomes the open modal with the given priority, and when it
  returns false the object is unchanged. \<open>close\<close> clears the open modal when it is
  called without argument or with the symbol that is open, and changes nothing
  otherwise.
\<close>

theorem modals_open_close:
  "(fst (open_modal s pr m) = (\<not> isOpen m \<or> (\<exists>p. priority_of m = Some p \<and> p \<le> pr))) \<and>
   (fst (open_modal s pr m) \<longrightarrow>
      opening_of (snd (open_modal s pr m)) = Some s \<and>
      priority_of (snd (open_modal s pr m)) = Some pr) \<and>
   (\<not> fst (open_modal s pr m) \<longrightarrow> snd (open_modal s pr m) = m) \<and>
   (arg = None \<or> arg = opening_of m \<longrightarrow> \<not> isOpen (close_modal arg m)) \<and>
   (arg \<noteq> None \<and> arg \<noteq> opening_of m \<longrightarrow> close_modal arg m = m)"
  by (auto simp: open_modal_def close_modal_def isOpen_def opening_of_def priority_of_def)

theorem modals_open_close_witness:
  "fst (open_modal 2 7 \<lparr>opening_obj = Some \<lparr>symbol = 1, priority = 5\<rparr>\<rparr>) \<and>
   opening_of (snd (open_modal 2 7 \<lparr>opening_obj = Some \<lparr>symbol = 1, priority = 5\<rparr>\<rparr>)) = Some 2 \<and>
   \<not> fst (open_modal 2 3 \<lparr>opening_obj = Some \<lparr>symbol = 1, priority = 5\<rparr>\<rparr>) \<and>
   snd (open_modal 2 3 \<lparr>opening_obj = Some \<lparr>symbol = 1, priority = 5\<rparr>\<rparr>) =
     \<lparr>opening_obj = Some \<lparr>symbol = 1, priority = 5\<rparr>\<rparr> \<and>
   Some 1 = opening_of \<lparr>opening_obj = Some \<lparr>symbol = 1, priority = 5\<rparr>\<rparr> \<and>
   \<not> isOpen (close_modal (Some 1) \<lparr>opening_obj = Some \<lparr>symbol = 1, priority = 5\<rparr>\<rparr>) \<and>
   Some 9 \<noteq> opening_of \<lparr>opening_obj = Some \<lparr>symbol = 1, priority = 5\<rparr>\<rparr> \<and>
   close_modal (Some 9) \<lparr>opening_obj = Some \<lparr>symbol = 1, priority = 5\<rparr>\<rparr> =
     \<lparr>opening_obj = Some \<lparr>symbol = 1, priority = 5\<rparr>\<rparr>"
  using modals_open_close[of 2 7 "\<lparr>opening_obj = Some \<lparr>symbol = 1, priority = 5\<rparr>\<rparr>" "Some 1"]
        modals_open_close[of 2 3 "\<lparr>opening_obj = Some \<lparr>symbol = 1, priority = 5\<rparr>\<rparr>" "Some 9"]
  by (simp add: opening_of_def isOpen_def priority_of_def)

section \<open>Loading a document links the segments of every path\<close>

lemma seg_first_set_first: "seg_first (set_first v sg) = v"
  by (simp add: seg_first_def set_first_def split: list.splits)

lemma length_linkStep: "length (linkStep j sgs) = length sgs"
  by (simp add: linkStep_def)

lemma linkStep_nth_other: "i \<noteq> j \<Longrightarrow> linkStep j sgs ! i = sgs ! i"
  by (simp add: linkStep_def)

lemma linkStep_nth_same:
  "j < length sgs \<Longrightarrow> linkStep j sgs ! j = set_first (seg_last (sgs ! (j - 1))) (sgs ! j)"
  by (simp add: linkStep_def)

lemma fold_linkStep_invariant:
  "k \<le> length sgs \<Longrightarrow>
   length (fold linkStep [1..<k] sgs) = length sgs \<and>
   (\<forall>i. Suc i < k \<longrightarrow>
        seg_first (fold linkStep [1..<k] sgs ! Suc i) = seg_last (fold linkStep [1..<k] sgs ! i)) \<and>
   (\<forall>i. k \<le> i \<longrightarrow> fold linkStep [1..<k] sgs ! i = sgs ! i) \<and>
   (\<forall>i. Suc i < k \<longrightarrow>
        controls (fold linkStep [1..<k] sgs ! Suc i) =
          seg_last (fold linkStep [1..<k] sgs ! i) # tl (controls (sgs ! Suc i))) \<and>
   (fold linkStep [1..<k] sgs ! 0 = sgs ! 0)"
proof (induction k)
  case 0
  then show ?case by simp
next
  case (Suc k)
  show ?case
  proof (cases "k = 0")
    case True
    then show ?thesis by simp
  next
    case False
    define r where "r = fold linkStep [1..<k] sgs"
    from Suc have kl: "k < length sgs" and IH:
      "length r = length sgs"
      "\<And>i. Suc i < k \<Longrightarrow> seg_first (r ! Suc i) = seg_last (r ! i)"
      "\<And>i. k \<le> i \<Longrightarrow> r ! i = sgs ! i"
      "\<And>i. Suc i < k \<Longrightarrow> controls (r ! Suc i) = seg_last (r ! i) # tl (controls (sgs ! Suc i))"
      "r ! 0 = sgs ! 0"
      by (simp_all add: r_def)
    from False have upt: "[1..<Suc k] = [1..<k] @ [k]" by simp
    have step: "fold linkStep [1..<Suc k] sgs = linkStep k r"
      unfolding upt r_def by simp
    have kr: "k < length r" using kl IH(1) by simp
    have same: "linkStep k r ! k = set_first (seg_last (r ! (k - 1))) (r ! k)"
      using kr by (rule linkStep_nth_same)
    have other: "\<And>i. i \<noteq> k \<Longrightarrow> linkStep k r ! i = r ! i"
      by (rule linkStep_nth_other)
    have c1: "length (linkStep k r) = length sgs"
      by (simp add: length_linkStep IH(1))
    have c2: "seg_first (linkStep k r ! Suc i) = seg_last (linkStep k r ! i)" if "Suc i < Suc k" for i
    proof (cases "Suc i = k")
      case True
      then have "i \<noteq> k" "k - 1 = i" by simp_all
      then show ?thesis using True same other[of i] by (simp add: seg_first_set_first)
    next
      case F: False
      with that have "Suc i < k" by simp
      then show ?thesis using other[of i] other[of "Suc i"] IH(2)[of i] by simp
    qed
    have c3: "linkStep k r ! i = sgs ! i" if "Suc k \<le> i" for i
      using that other[of i] IH(3)[of i] by simp
    have c4: "controls (linkStep k r ! Suc i) = seg_last (linkStep k r ! i) # tl (controls (sgs ! Suc i))"
      if "Suc i < Suc k" for i
    proof (cases "Suc i = k")
      case True
      then have ik: "i \<noteq> k" "k - 1 = i" by simp_all
      have "r ! k = sgs ! k" using IH(3)[of k] by simp
      then show ?thesis using True same other[of i] ik
        by (simp add: set_first_def split: list.splits)
    next
      case F: False
      with that have "Suc i < k" by simp
      then show ?thesis using other[of i] other[of "Suc i"] IH(4)[of i] by simp
    qed
    have c5: "linkStep k r ! 0 = sgs ! 0"
      using False other[of 0] IH(5) by simp
    show ?thesis unfolding step using c1 c2 c3 c4 c5 by blast
  qed
qed

lemma linkSegments_length: "length (linkSegments sgs) = length sgs"
  using fold_linkStep_invariant[of "length sgs" sgs] by (simp add: linkSegments_def)

lemma linkSegments_linked:
  "Suc i < length sgs \<Longrightarrow> seg_first (linkSegments sgs ! Suc i) = seg_last (linkSegments sgs ! i)"
  using fold_linkStep_invariant[of "length sgs" sgs] by (simp add: linkSegments_def)

lemma linkSegments_controls:
  "Suc i < length sgs \<Longrightarrow>
   controls (linkSegments sgs ! Suc i) = seg_last (linkSegments sgs ! i) # tl (controls (sgs ! Suc i))"
  using fold_linkStep_invariant[of "length sgs" sgs] by (simp add: linkSegments_def)

lemma linkSegments_head: "linkSegments sgs ! 0 = sgs ! 0"
  using fold_linkStep_invariant[of "length sgs" sgs] by (simp add: linkSegments_def)

lemma paths_setPathFileData:
  "paths (setPathFileData sanitize fmt pfd app) = map (loadPath sanitize) (pfd_paths pfd)"
  by (simp add: setPathFileData_def resetFieldDisplay_def resetUserControl_def Let_def)

lemma segments_loadPath: "segments (loadPath sanitize path) = linkSegments (segments path)"
  by (simp add: loadPath_def Let_def)

lemma uid_loadPath: "Path.uid (loadPath sanitize path) = Path.uid path"
  by (simp add: loadPath_def Let_def)

text \<open>
  Claim C2. After \<open>setPathFileData\<close> has replaced the path list, in every loaded path
  and for every adjacent pair of segments \<open>i\<close>, \<open>i + 1\<close>, the first end point of
  segment \<open>i + 1\<close> is the same object (the same reference) as the last end point of
  segment \<open>i\<close>.
\<close>

theorem setPathFileData_links_segments:
  "\<forall>path \<in> set (paths (setPathFileData sanitize fmt pfd app)).
     \<forall>i. Suc i < length (segments path) \<longrightarrow>
       seg_first (segments path ! Suc i) = seg_last (segments path ! i)"
  by (auto simp: paths_setPathFileData segments_loadPath linkSegments_length linkSegments_linked)

text \<open>
  Claim C4, as the code has it. \<open>setPathFileData\<close> loads every path of the file, in
  order and with all its segments; it never compares coordinates and never rejects a
  path. The first segment is unchanged, and every later segment gets the last end point
  of its predecessor as its first control, keeping its other controls.
\<close>

theorem setPathFileData_keeps_every_path:
  "length (paths (setPathFileData sanitize fmt pfd app)) = length (pfd_paths pfd) \<and>
   (\<forall>k. k < length (pfd_paths pfd) \<longrightarrow>
      Path.uid (paths (setPathFileData sanitize fmt pfd app) ! k) = Path.uid (pfd_paths pfd ! k) \<and>
      length (segments (paths (setPathFileData sanitize fmt pfd app) ! k)) =
        length (segments (pfd_paths pfd ! k)) \<and>
      segments (paths (setPathFileData sanitize fmt pfd app) ! k) ! 0 = segments (pfd_paths pfd ! k) ! 0 \<and>
      (\<forall>j. Suc j < length (segments (pfd_paths pfd ! k)) \<longrightarrow>
         controls (segments (paths (setPathFileData sanitize fmt pfd app) ! k) ! Suc j) =
           seg_last (segments (paths (setPathFileData sanitize fmt pfd app) ! k) ! j)
             # tl (controls (segments (pfd_paths pfd ! k) ! Suc j))))"
  by (simp add: paths_setPathFileData segments_loadPath uid_loadPath linkSegments_length
        linkSegments_controls linkSegments_head)

lemma ex_linked: "linkSegments (segments ex_path) =
   [\<lparr>controls = [Some 0, Some 1]\<rparr>, \<lparr>controls = [Some 1, Some 3]\<rparr>]"
  by (simp add: ex_path_def linkSegments_def linkStep_def set_first_def seg_last_def upt_rec)

lemma ex_loaded: "paths (setPathFileData (\<lambda>s. s) (ex_format 2) ex_pfd ex_app) =
    [ex_path\<lparr>segments := [\<lparr>controls = [Some 0, Some 1]\<rparr>, \<lparr>controls = [Some 1, Some 3]\<rparr>]\<rparr>]"
  by (simp add: paths_setPathFileData ex_pfd_def loadPath_def ex_linked) (simp add: ex_path_def)

theorem setPathFileData_links_segments_witness:
  "ex_path\<lparr>segments := [\<lparr>controls = [Some 0, Some 1]\<rparr>, \<lparr>controls = [Some 1, Some 3]\<rparr>]\<rparr>
     \<in> set (paths (setPathFileData (\<lambda>s. s) (ex_format 2) ex_pfd ex_app)) \<and>
   Suc 0 < length (segments (ex_path\<lparr>segments := [\<lparr>controls = [Some 0, Some 1]\<rparr>, \<lparr>controls = [Some 1, Some 3]\<rparr>]\<rparr>)) \<and>
   seg_first (segments (hd (paths (setPathFileData (\<lambda>s. s) (ex_format 2) ex_pfd ex_app))) ! Suc 0) =
     seg_last (segments (hd (paths (setPathFileData (\<lambda>s. s) (ex_format 2) ex_pfd ex_app))) ! 0) \<and>
   seg_first (segments ex_path ! Suc 0) \<noteq> seg_last (segments ex_path ! 0)"
  using setPathFileData_links_segments[of "\<lambda>s. s" "ex_format 2" ex_pfd ex_app]
  by (simp add: ex_loaded) (simp add: ex_path_def seg_first_def seg_last_def)

text \<open>
  The example path cannot be linked by coordinate (its first segment ends at \<open>(1, 1)\<close>,
  its second starts at \<open>(5, 5)\<close>), and it is loaded all the same.
\<close>

theorem setPathFileData_rejects_counterexample:
  "\<not> coordinateLinked ex_store (segments ex_path) \<and>
   map Path.uid (paths (setPathFileData (\<lambda>s. s) (ex_format 2) ex_pfd ex_app)) = [Path.uid ex_path]"
  by (simp add: ex_loaded) (simp add: ex_path_def coordOf_def seg_first_def seg_last_def ex_store_def ex_control_def)

theorem setPathFileData_keeps_every_path_witness:
  "(0::nat) < length (pfd_paths ex_pfd) \<and> Suc 0 < length (segments (pfd_paths ex_pfd ! 0)) \<and>
   Path.uid (paths (setPathFileData (\<lambda>s. s) (ex_format 2) ex_pfd ex_app) ! 0) = ''p1'' \<and>
   controls (segments (paths (setPathFileData (\<lambda>s. s) (ex_format 2) ex_pfd ex_app) ! 0) ! Suc 0) =
     [Some 1, Some 3]"
  using setPathFileData_keeps_every_path[of "\<lambda>s. s" "ex_format 2" ex_pfd ex_app]
  by (simp add: ex_loaded) (simp add: ex_path_def ex_pfd_def)

section \<open>New document, import and format switch clear the history\<close>

lemma history_newPathFile:
  "history (newPathFile createNewInstance init app) = clearHistory (history app)"
  by (simp add: newPathFile_def resetFieldDisplay_def resetUserControl_def Let_def)

lemma history_setPathFileData:
  "history (setPathFileData sanitize fmt pfd app) = clearHistory (history app)"
  by (simp add: setPathFileData_def resetFieldDisplay_def resetUserControl_def Let_def)

lemma history_formatReaction:
  "\<not> isInit (format app) \<Longrightarrow>
   history (formatReaction init buildPathConfig convGC convPC oldFormat app) =
     clearHistory (history app)"
  by (simp add: formatReaction_def resetUserControl_def Let_def)

lemma clearHistory_empty:
  "done_log (clearHistory h) = [] \<and> undone_log (clearHistory h) = [] \<and>
   savedMarker (clearHistory h) = Some 0 \<and> \<not> isModified (clearHistory h) \<and>
   undoCount (clearHistory h) = 0 \<and> redoCount (clearHistory h) = 0"
  by (simp add: clearHistory_def isModified_def historyPosition_def undoCount_def redoCount_def)

text \<open>
  Claim C5. \<open>newPathFile\<close>, \<open>setPathFileData\<close> (the end of every import) and the
  format reaction on a format that is not yet initialised (a switch made by the user:
  loading initialises the format first, which suspends the reaction) each end with
  \<open>clearHistory()\<close>: afterwards both logs are empty and the history reports
  "not modified".
\<close>

theorem clearHistory_on_new_import_switch:
  "(done_log (history (newPathFile createNewInstance init app)) = [] \<and>
    undone_log (history (newPathFile createNewInstance init app)) = [] \<and>
    \<not> isModified (history (newPathFile createNewInstance init app))) \<and>
   (done_log (history (setPathFileData sanitize fmt pfd app)) = [] \<and>
    undone_log (history (setPathFileData sanitize fmt pfd app)) = [] \<and>
    \<not> isModified (history (setPathFileData sanitize fmt pfd app))) \<and>
   (\<not> isInit (format app) \<longrightarrow>
    done_log (history (formatReaction init buildPathConfig convGC convPC oldFormat app)) = [] \<and>
    undone_log (history (formatReaction init buildPathConfig convGC convPC oldFormat app)) = [] \<and>
    \<not> isModified (history (formatReaction init buildPathConfig convGC convPC oldFormat app)))"
  by (simp add: history_newPathFile history_setPathFileData history_formatReaction clearHistory_empty)

theorem clearHistory_on_new_import_switch_witness:
  "\<not> isInit (format ex_app) \<and> isModified (history ex_app) \<and>
   done_log (history ex_app) \<noteq> [] \<and> undone_log (history ex_app) \<noteq> [] \<and>
   done_log (history (formatReaction (\<lambda>f. f\<lparr>isInit := True\<rparr>) (\<lambda>f. ex_pc) (\<lambda>g u. g) (\<lambda>p a b. p)
               (ex_format 5) ex_app)) = [] \<and>
   undone_log (history (formatReaction (\<lambda>f. f\<lparr>isInit := True\<rparr>) (\<lambda>f. ex_pc) (\<lambda>g u. g) (\<lambda>p a b. p)
               (ex_format 5) ex_app)) = [] \<and>
   \<not> isModified (history (formatReaction (\<lambda>f. f\<lparr>isInit := True\<rparr>) (\<lambda>f. ex_pc) (\<lambda>g u. g) (\<lambda>p a b. p)
               (ex_format 5) ex_app)) \<and>
   done_log (history (newPathFile (\<lambda>f. ex_format 2) (\<lambda>f. f\<lparr>isInit := True\<rparr>) ex_app)) = [] \<and>
   done_log (history (setPathFileData (\<lambda>s. s) (ex_format 2) ex_pfd ex_app)) = []"
  using clearHistory_on_new_import_switch[of "\<lambda>f. ex_format 2" "\<lambda>f. f\<lparr>isInit := True\<rparr>" ex_app
          "\<lambda>s. s" "ex_format 2" ex_pfd "\<lambda>f. ex_pc" "\<lambda>g u. g" "\<lambda>p a b. p" "ex_format 5"]
  by (simp add: ex_app_def ex_format_def isModified_def)

section \<open>What the format reaction keeps\<close>

lemma format_formatReaction:
  "\<not> isInit (format app) \<Longrightarrow>
   app_gc (formatReaction init buildPathConfig convGC convPC oldFormat app) =
     (convGC ((getGeneralConfig (init (format app)))
                \<lparr>robotWidth := robotWidth (getGeneralConfig oldFormat),
                 robotHeight := robotHeight (getGeneralConfig oldFormat)\<rparr>)
             (uol (getGeneralConfig oldFormat)))
       \<lparr>pointDensity := pointDensity (getGeneralConfig (init (format app)))\<rparr>"
  by (simp add: formatReaction_def resetUserControl_def Let_def app_gc_def getGeneralConfig_def)

lemma paths_formatReaction:
  "\<not> isInit (format app) \<Longrightarrow>
   paths (formatReaction init buildPathConfig convGC convPC oldFormat app) =
     map (reactPathConfig
            (buildPathConfig (format (formatReaction init buildPathConfig convGC convPC oldFormat app)))
            convPC (pointDensity (getGeneralConfig oldFormat))
            (pointDensity (app_gc (formatReaction init buildPathConfig convGC convPC oldFormat app))))
         (paths app)"
  by (simp add: formatReaction_def resetUserControl_def Let_def app_gc_def getGeneralConfig_def)

lemma pc_reactPathConfig:
  "pc (reactPathConfig builtPC convPC d1 d2 path) =
     convPC ((if minLimit (speedLimit builtPC) = minLimit (speedLimit (pc path)) \<and>
                 maxLimit (speedLimit builtPC) = maxLimit (speedLimit (pc path))
              then builtPC\<lparr>speedLimit := speedLimit (pc path)\<rparr> else builtPC)
             \<lparr>bentRateApplicableRange := bentRateApplicableRange (pc path)\<rparr>) d1 d2"
  by (simp add: reactPathConfig_def Let_def)

text \<open>
  Claim C9, as the code has it. When the reaction runs (the new format is not yet
  initialised), the point density of the general configuration afterwards is the new
  format's own point density, read right after \<open>init()\<close> and written back after the
  unit conversion, not the old format's. The robot width and height of the old
  format's configuration are copied into the new configuration, and every path keeps
  its place and its bent rate applicable range in the configuration built for it
  (whose speed limit is the path's only when the limit objects are the very same).
  The copied sizes then pass through \<open>convertGeneralConfigUOL\<close> and the kept range
  through \<open>convertPathConfigPointDensity\<close>: they are the final values whenever these
  two leave the robot size and the range as they are.
\<close>

theorem formatReaction_kept_values:
  "\<not> isInit (format app) \<Longrightarrow>
   pointDensity (app_gc (formatReaction init buildPathConfig convGC convPC oldFormat app)) =
     pointDensity (getGeneralConfig (init (format app))) \<and>
   app_gc (formatReaction init buildPathConfig convGC convPC oldFormat app) =
     (convGC ((getGeneralConfig (init (format app)))
                \<lparr>robotWidth := robotWidth (getGeneralConfig oldFormat),
                 robotHeight := robotHeight (getGeneralConfig oldFormat)\<rparr>)
             (uol (getGeneralConfig oldFormat)))
       \<lparr>pointDensity := pointDensity (getGeneralConfig (init (format app)))\<rparr> \<and>
   ((\<forall>g u. robotWidth (convGC g u) = robotWidth g \<and> robotHeight (convGC g u) = robotHeight g) \<longrightarrow>
      robotWidth (app_gc (formatReaction init buildPathConfig convGC convPC oldFormat app)) =
        robotWidth (getGeneralConfig oldFormat) \<and>
      robotHeight (app_gc (formatReaction init buildPathConfig convGC convPC oldFormat app)) =
        robotHeight (getGeneralConfig oldFormat)) \<and>
   length (paths (formatReaction init buildPathConfig convGC convPC oldFormat app)) =
     length (paths app) \<and>
   (\<forall>k. k < length (paths app) \<longrightarrow>
      pc (paths (formatReaction init buildPathConfig convGC convPC oldFormat app) ! k) =
        convPC
          ((if minLimit (speedLimit (buildPathConfig
                  (format (formatReaction init buildPathConfig convGC convPC oldFormat app)))) =
                 minLimit (speedLimit (pc (paths app ! k))) \<and>
               maxLimit (speedLimit (buildPathConfig
                  (format (formatReaction init buildPathConfig convGC convPC oldFormat app)))) =
                 maxLimit (speedLimit (pc (paths app ! k)))
            then (buildPathConfig
                    (format (formatReaction init buildPathConfig convGC convPC oldFormat app)))
                   \<lparr>speedLimit := speedLimit (pc (paths app ! k))\<rparr>
            else buildPathConfig
                   (format (formatReaction init buildPathConfig convGC convPC oldFormat app)))
           \<lparr>bentRateApplicableRange := bentRateApplicableRange (pc (paths app ! k))\<rparr>)
          (pointDensity (getGeneralConfig oldFormat))
          (pointDensity (getGeneralConfig (init (format app))))) \<and>
   ((\<forall>q a b. bentRateApplicableRange (convPC q a b) = bentRateApplicableRange q) \<longrightarrow>
      (\<forall>k. k < length (paths app) \<longrightarrow>
         bentRateApplicableRange
           (pc (paths (formatReaction init buildPathConfig convGC convPC oldFormat app) ! k)) =
         bentRateApplicableRange (pc (paths app ! k))))"
proof -
  assume a: "\<not> isInit (format app)"
  have d: "pointDensity (app_gc (formatReaction init buildPathConfig convGC convPC oldFormat app)) =
     pointDensity (getGeneralConfig (init (format app)))"
    by (simp add: format_formatReaction[OF a])
  have g: "app_gc (formatReaction init buildPathConfig convGC convPC oldFormat app) =
     (convGC ((getGeneralConfig (init (format app)))
                \<lparr>robotWidth := robotWidth (getGeneralConfig oldFormat),
                 robotHeight := robotHeight (getGeneralConfig oldFormat)\<rparr>)
             (uol (getGeneralConfig oldFormat)))
       \<lparr>pointDensity := pointDensity (getGeneralConfig (init (format app)))\<rparr>"
    by (rule format_formatReaction[OF a])
  have r: "robotWidth (app_gc (formatReaction init buildPathConfig convGC convPC oldFormat app)) =
        robotWidth (getGeneralConfig oldFormat) \<and>
      robotHeight (app_gc (formatReaction init buildPathConfig convGC convPC oldFormat app)) =
        robotHeight (getGeneralConfig oldFormat)"
    if "\<forall>g u. robotWidth (convGC g u) = robotWidth g \<and> robotHeight (convGC g u) = robotHeight g"
    using that by (simp add: g)
  have l: "length (paths (formatReaction init buildPathConfig convGC convPC oldFormat app)) =
     length (paths app)"
    by (simp add: paths_formatReaction[OF a])
  have p: "pc (paths (formatReaction init buildPathConfig convGC convPC oldFormat app) ! k) =
        convPC
          ((if minLimit (speedLimit (buildPathConfig
                  (format (formatReaction init buildPathConfig convGC convPC oldFormat app)))) =
                 minLimit (speedLimit (pc (paths app ! k))) \<and>
               maxLimit (speedLimit (buildPathConfig
                  (format (formatReaction init buildPathConfig convGC convPC oldFormat app)))) =
                 maxLimit (speedLimit (pc (paths app ! k)))
            then (buildPathConfig
                    (format (formatReaction init buildPathConfig convGC convPC oldFormat app)))
                   \<lparr>speedLimit := speedLimit (pc (paths app ! k))\<rparr>
            else buildPathConfig
                   (format (formatReaction init buildPathConfig convGC convPC oldFormat app)))
           \<lparr>bentRateApplicableRange := bentRateApplicableRange (pc (paths app ! k))\<rparr>)
          (pointDensity (getGeneralConfig oldFormat))
          (pointDensity (getGeneralConfig (init (format app))))"
    if "k < length (paths app)" for k
    using that by (simp add: paths_formatReaction[OF a] pc_reactPathConfig d)
  have b: "bentRateApplicableRange
           (pc (paths (formatReaction init buildPathConfig convGC convPC oldFormat app) ! k)) =
         bentRateApplicableRange (pc (paths app ! k))"
    if "\<forall>q a b. bentRateApplicableRange (convPC q a b) = bentRateApplicableRange q"
      and "k < length (paths app)" for k
    using that by (simp add: p)
  show ?thesis using d g r l p b by blast
qed

text \<open>
  The point density is not carried over from the old format: switching from a format
  whose configuration has density 5 to a fresh format with density 2 leaves density 2.
\<close>

theorem formatReaction_density_counterexample:
  "pointDensity (getGeneralConfig ex_old_format) = 5 \<and>
   pointDensity (app_gc (formatReaction (\<lambda>f. f\<lparr>isInit := True\<rparr>) (\<lambda>f. ex_built_pc) (\<lambda>g u. g)
                            (\<lambda>p a b. p) ex_old_format ex_app2)) = 2"
  by (simp add: formatReaction_def ex_app2_def ex_app_def ex_format_def ex_old_format_def ex_gc_def
        getGeneralConfig_def app_gc_def resetUserControl_def Let_def)

lemma ex_reaction_path:
  "pc (paths (formatReaction (\<lambda>f. f\<lparr>isInit := True\<rparr>) (\<lambda>f. ex_built_pc) (\<lambda>g u. g)
                (\<lambda>p a b. p) ex_old_format ex_app2) ! 0) =
     ex_built_pc\<lparr>bentRateApplicableRange := bentRateApplicableRange ex_pc\<rparr>"
  by (simp add: formatReaction_def reactPathConfig_def ex_app2_def ex_app_def ex_format_def
        ex_path_def ex_pc_def ex_built_pc_def resetUserControl_def Let_def)

theorem formatReaction_kept_values_witness:
  "\<not> isInit (format ex_app2) \<and> (0::nat) < length (paths ex_app2) \<and>
   pointDensity (app_gc (formatReaction (\<lambda>f. f\<lparr>isInit := True\<rparr>) (\<lambda>f. ex_built_pc) (\<lambda>g u. g)
                            (\<lambda>p a b. p) ex_old_format ex_app2)) = 2 \<and>
   robotWidth (app_gc (formatReaction (\<lambda>f. f\<lparr>isInit := True\<rparr>) (\<lambda>f. ex_built_pc) (\<lambda>g u. g)
                            (\<lambda>p a b. p) ex_old_format ex_app2)) = 45 \<and>
   robotHeight (app_gc (formatReaction (\<lambda>f. f\<lparr>isInit := True\<rparr>) (\<lambda>f. ex_built_pc) (\<lambda>g u. g)
                            (\<lambda>p a b. p) ex_old_format ex_app2)) = 40 \<and>
   bentRateApplicableRange
     (pc (paths (formatReaction (\<lambda>f. f\<lparr>isInit := True\<rparr>) (\<lambda>f. ex_built_pc) (\<lambda>g u. g)
                   (\<lambda>p a b. p) ex_old_format ex_app2) ! 0)) =
     bentRateApplicableRange (pc ex_path) \<and>
   speedLimit
     (pc (paths (formatReaction (\<lambda>f. f\<lparr>isInit := True\<rparr>) (\<lambda>f. ex_built_pc) (\<lambda>g u. g)
                   (\<lambda>p a b. p) ex_old_format ex_app2) ! 0)) =
     speedLimit ex_built_pc"
proof -
  have i: "\<not> isInit (format ex_app2)"
    by (simp add: ex_app2_def ex_app_def ex_format_def)
  have n: "(0::nat) < length (paths ex_app2)"
    by (simp add: ex_app2_def)
  have p0: "paths ex_app2 ! 0 = ex_path"
    by (simp add: ex_app2_def)
  show ?thesis
    using formatReaction_kept_values[OF i, of "\<lambda>f. f\<lparr>isInit := True\<rparr>" "\<lambda>f. ex_built_pc"
            "\<lambda>g u. g" "\<lambda>p a b. p" ex_old_format] i n p0
    by (simp add: ex_reaction_path)
       (simp add: ex_app2_def ex_app_def ex_format_def ex_old_format_def ex_gc_def
          getGeneralConfig_def ex_path_def)
qed

section \<open>Area selection\<close>

lemma set_uniq: "set (uniq xs) = set xs"
  by (simp add: uniq_def)

lemma distinct_uniq: "distinct (uniq xs)"
  by (simp add: uniq_def)

lemma selectableControls_set:
  "set (selectableControls controlsOf app) =
     {c. \<exists>p. p \<in> set (paths app) \<and> Path.visible p \<and> \<not> Path.lock p \<and>
              c \<in> set (controlsOf p) \<and> Control.visible c \<and> \<not> Control.lock c}"
  by (auto simp: selectableControls_def selectablePaths_def)

lemma highlightedIn_set:
  "set (highlightedIn isWithinArea controlsOf a b app) =
     {Control.uid c | c p.
        p \<in> set (paths app) \<and> Path.visible p \<and> \<not> Path.lock p \<and>
        c \<in> set (controlsOf p) \<and> Control.visible c \<and> \<not> Control.lock c \<and>
        isWithinArea c \<lparr>x = min (x a) (x b), y = min (y a) (y b)\<rparr>
                       \<lparr>x = max (x a) (x b), y = max (y a) (y b)\<rparr>}"
  by (auto simp: highlightedIn_def Let_def selectableControls_set)

lemma highlightedIn_commute:
  "highlightedIn isWithinArea controlsOf a b app = highlightedIn isWithinArea controlsOf b a app"
  by (simp add: highlightedIn_def Let_def min.commute max.commute)

lemma highlightedIn_start:
  "highlightedIn isWithinArea controlsOf a b (startAreaSelection app) =
   highlightedIn isWithinArea controlsOf a b app"
  by (simp add: highlightedIn_def selectableControls_def selectablePaths_def startAreaSelection_def)

lemma selected_update_set:
  "set (selected (updateAreaSelection isWithinArea controlsOf a b app)) =
     (set (selectedBefore app) - set (highlightedIn isWithinArea controlsOf a b app)) \<union>
     (set (highlightedIn isWithinArea controlsOf a b app) - set (selectedBefore app))"
  by (auto simp: updateAreaSelection_def Let_def set_uniq)

text \<open>
  Claim C8. After \<open>startAreaSelection()\<close> and \<open>updateAreaSelection(from, to)\<close> the
  selected ids are, without duplicates, the symmetric difference of the selection saved
  at the start and the uids of the controls that are visible, unlocked, belong to a
  visible unlocked path and lie within the rectangle spanned by the two corners; and
  swapping the two corners gives the same state.
\<close>

theorem area_selection_symmetric_difference:
  "set (selected (updateAreaSelection isWithinArea controlsOf a b (startAreaSelection app))) =
     (set (selected app) -
        {Control.uid c | c p.
           p \<in> set (paths app) \<and> Path.visible p \<and> \<not> Path.lock p \<and>
           c \<in> set (controlsOf p) \<and> Control.visible c \<and> \<not> Control.lock c \<and>
           isWithinArea c \<lparr>x = min (x a) (x b), y = min (y a) (y b)\<rparr>
                          \<lparr>x = max (x a) (x b), y = max (y a) (y b)\<rparr>}) \<union>
     ({Control.uid c | c p.
           p \<in> set (paths app) \<and> Path.visible p \<and> \<not> Path.lock p \<and>
           c \<in> set (controlsOf p) \<and> Control.visible c \<and> \<not> Control.lock c \<and>
           isWithinArea c \<lparr>x = min (x a) (x b), y = min (y a) (y b)\<rparr>
                          \<lparr>x = max (x a) (x b), y = max (y a) (y b)\<rparr>} -
        set (selected app)) \<and>
   distinct (selected (updateAreaSelection isWithinArea controlsOf a b (startAreaSelection app))) \<and>
   updateAreaSelection isWithinArea controlsOf a b (startAreaSelection app) =
     updateAreaSelection isWithinArea controlsOf b a (startAreaSelection app)"
proof -
  have s: "selectedBefore (startAreaSelection app) = selected app"
    by (simp add: startAreaSelection_def)
  have 1: "set (selected (updateAreaSelection isWithinArea controlsOf a b (startAreaSelection app))) =
     (set (selected app) - set (highlightedIn isWithinArea controlsOf a b app)) \<union>
     (set (highlightedIn isWithinArea controlsOf a b app) - set (selected app))"
    by (simp only: selected_update_set s highlightedIn_start)
  have 2: "distinct (selected (updateAreaSelection isWithinArea controlsOf a b (startAreaSelection app)))"
    by (simp add: updateAreaSelection_def Let_def distinct_uniq)
  have 3: "updateAreaSelection isWithinArea controlsOf a b (startAreaSelection app) =
     updateAreaSelection isWithinArea controlsOf b a (startAreaSelection app)"
    unfolding updateAreaSelection_def
    by (simp only: highlightedIn_commute[of isWithinArea controlsOf a b])
  show ?thesis
    using 1 2 3 by (simp only: highlightedIn_set)
qed

text \<open>
  An area given by its lower right and upper left corners covers \<open>c1\<close> and \<open>c2\<close>:
  \<open>c1\<close>, selected before, is dropped, \<open>c2\<close> is added, the id outside stays.
\<close>

lemma area_selection_example:
  "selected (updateAreaSelection ex_isWithinArea ex_controlsOf \<lparr>x = 11 / 2, y = 1 / 2\<rparr> \<lparr>x = 1 / 2, y = 11 / 2\<rparr>
              (startAreaSelection ex_app3)) = [''zz'', ''c2'']"
  by (simp add: updateAreaSelection_def highlightedIn_def selectableControls_def
        selectablePaths_def startAreaSelection_def ex_app3_def ex_app_def ex_path_def
        ex_controlsOf_def ex_control_def ex_isWithinArea_def uniq_def Let_def)

section \<open>Undo and redo\<close>


lemma mergeCommands_apply: "cmd_apply (mergeCommands a c) st = cmd_apply c (cmd_apply a st)"
  by transfer simp



lemma ex_inc_inverse: "cmd_inverse ex_inc n = n - 1"
  by transfer simp

text \<open>
  Claim C6. \<open>undo()\<close> on an empty \<open>done\<close> log and \<open>redo()\<close> on an empty
  \<open>undone\<close> log change nothing (both are total: there is no error to raise); when
  \<open>done\<close> ends with a command, \<open>undo()\<close> removes it from \<open>done\<close>, runs its
  inverse on the model and appends it to \<open>undone\<close>.
\<close>

theorem undo_redo_empty_noop:
  "(done_log (fst hs) = [] \<longrightarrow> undo hs = hs) \<and>
   (undone_log (fst hs) = [] \<longrightarrow> redo hs = hs) \<and>
   (\<forall>ds c. done_log (fst hs) = ds @ [c] \<longrightarrow>
      undo hs = ((fst hs)\<lparr>done_log := ds, undone_log := undone_log (fst hs) @ [c]\<rparr>,
                 cmd_inverse c (snd hs)))"
  by (simp add: undo_def redo_def Let_def)

theorem undo_redo_empty_noop_witness:
  "done_log (fst (ex_history, 7::int)) = [] \<and> undo (ex_history, 7) = (ex_history, 7) \<and>
   undone_log (fst (ex_history, 7::int)) = [] \<and> redo (ex_history, 7) = (ex_history, 7) \<and>
   done_log (fst (ex_history\<lparr>done_log := [ex_inc]\<rparr>, 7::int)) = [] @ [ex_inc] \<and>
   undo (ex_history\<lparr>done_log := [ex_inc]\<rparr>, 7) =
     (ex_history\<lparr>done_log := [], undone_log := [ex_inc]\<rparr>, 6)"
  using undo_redo_empty_noop[of "(ex_history, 7)"]
        undo_redo_empty_noop[of "(ex_history\<lparr>done_log := [ex_inc]\<rparr>, 7)"]
  by (simp add: ex_history_def ex_inc_inverse)















section \<open>Unit conversion round trip\<close>

text \<open>
  Claim C7. For units with positive table entries, converting a scalar or a vector's
  coordinates from A to B and back to A (with the same converter, or with the converter
  of the opposite direction) differs from the original by no more than any tolerance
  \<open>eps \<ge> 0\<close>: over exact numbers the round trip is the identity.
\<close>

theorem unit_round_trip:
  assumes "0 < unitTable unitA" and "0 < unitTable unitB" and "0 \<le> eps"
  shows "\<bar>fromBtoA (newUnitConverter unitTable unitA unitB)
             (fromAtoB (newUnitConverter unitTable unitA unitB) v) - v\<bar> \<le> eps \<and>
         \<bar>fromAtoB (newUnitConverter unitTable unitB unitA)
             (fromAtoB (newUnitConverter unitTable unitA unitB) v) - v\<bar> \<le> eps \<and>
         \<bar>x (vectorBtoA (newUnitConverter unitTable unitA unitB)
                (vectorAtoB (newUnitConverter unitTable unitA unitB) w)) - x w\<bar> \<le> eps \<and>
         \<bar>y (vectorBtoA (newUnitConverter unitTable unitA unitB)
                (vectorAtoB (newUnitConverter unitTable unitA unitB) w)) - y w\<bar> \<le> eps"
  using assms
  by (simp add: fromAtoB_def fromBtoA_def newUnitConverter_def vectorAtoB_def vectorBtoA_def)

theorem unit_round_trip_witness:
  "(0::real) < (\<lambda>u. u) 10 \<and> (0::real) < (\<lambda>u. u) (254 / 10) \<and> (0::real) \<le> 0 \<and>
   fromAtoB (newUnitConverter (\<lambda>u. u) 10 (254 / 10)) 127 = 50 \<and>
   \<bar>fromBtoA (newUnitConverter (\<lambda>u. u) 10 (254 / 10))
       (fromAtoB (newUnitConverter (\<lambda>u. u) 10 (254 / 10)) 127) - 127\<bar> \<le> 0"
  using unit_round_trip[of "\<lambda>u. u" 10 "254 / 10" 0 127]
  by (simp add: fromAtoB_def newUnitConverter_def)

section \<open>Uniform resampling\<close>

lemma distance_interpolate:
  "distance (interpolate p q a) (interpolate p q b) = \<bar>b - a\<bar> * distance p q"
proof -
  have "(x p + (x q - x p) * a - (x p + (x q - x p) * b))\<^sup>2 +
        (y p + (y q - y p) * a - (y p + (y q - y p) * b))\<^sup>2 =
        (b - a)\<^sup>2 * ((x p - x q)\<^sup>2 + (y p - y q)\<^sup>2)"
    by (simp add: power2_eq_square algebra_simps)
  then show ?thesis
    by (simp add: distance_def interpolate_def real_sqrt_mult)
qed

lemma sum_list_const: "sum_list (map (\<lambda>k. c) [0..<n]) = real n * (c::real)"
  by (induction n) (simp_all add: algebra_simps)

lemma arcLengthEstimate_linear:
  assumes "0 < probe"
  shows "arcLengthEstimate probe [p, q] = distance p q"
proof -
  have "\<bar>real (Suc k) / real probe - real k / real probe\<bar> = 1 / real probe" for k
    using assms by (simp add: field_simps)
  then have "arcLengthEstimate probe [p, q] =
      sum_list (map (\<lambda>k. 1 / real probe * distance p q) [0..<probe])"
    by (simp add: arcLengthEstimate_def position_def distance_interpolate)
  also have "\<dots> = distance p q"
    using assms by (simp only: sum_list_const) simp
  finally show ?thesis .
qed

lemma ex_corner_sample:
  "sample 100 ex_corner 7 = Inr [\<lparr>x = 0, y = 0\<rparr>, \<lparr>x = 4, y = 0\<rparr>, \<lparr>x = 4, y = 6\<rparr>]"
  by (simp add: sample_def ex_corner_def wellFormed_def segmentSamples_def stepCount_def
        arcLengthEstimate_linear distance_def position_def interpolate_def)

lemma ex_corner_resample:
  "resampleUniform [\<lparr>x = 0, y = 0\<rparr>, \<lparr>x = 4, y = 0\<rparr>, \<lparr>x = 4, y = 6\<rparr>] 7 =
     [\<lparr>x = 0, y = 0\<rparr>, \<lparr>x = 4, y = 3\<rparr>, \<lparr>x = 4, y = 6\<rparr>]"
  by (simp add: resampleUniform_def distance_def interpolate_def Let_def)

text \<open>
  On the corner path with density 7 the raw points are the three end points, and the
  output is \<open>(0, 0), (4, 3), (4, 6)\<close>: the first two output points, which are not the
  final pair, are at Euclidean distance 5 from one another, not 7.
\<close>

theorem resample_spacing_counterexample:
  "sample 100 ex_corner 7 = Inr [\<lparr>x = 0, y = 0\<rparr>, \<lparr>x = 4, y = 0\<rparr>, \<lparr>x = 4, y = 6\<rparr>] \<and>
   consecutiveDistances (resampleUniform [\<lparr>x = 0, y = 0\<rparr>, \<lparr>x = 4, y = 0\<rparr>, \<lparr>x = 4, y = 6\<rparr>] 7) = [5, 3]"
  by (simp add: ex_corner_sample ex_corner_resample distance_def)

text \<open>A straight segment of length 30 at density 10 gives the points at 0, 10, 20 and 30.\<close>

lemma ex_line_sample: "sample 100 [[\<lparr>x = 0, y = 0\<rparr>, \<lparr>x = 30, y = 0\<rparr>]] 10 = 
   Inr [\<lparr>x = 0, y = 0\<rparr>, \<lparr>x = 10, y = 0\<rparr>, \<lparr>x = 20, y = 0\<rparr>, \<lparr>x = 30, y = 0\<rparr>]"
  by (simp add: sample_def wellFormed_def segmentSamples_def stepCount_def
        arcLengthEstimate_linear distance_def position_def interpolate_def upt_rec)

lemma ex_line_resample: "resampleUniform [\<lparr>x = 0, y = 0\<rparr>, \<lparr>x = 10, y = 0\<rparr>, \<lparr>x = 20, y = 0\<rparr>, \<lparr>x = 30, y = 0\<rparr>] 10 =
   [\<lparr>x = 0, y = 0\<rparr>, \<lparr>x = 10, y = 0\<rparr>, \<lparr>x = 20, y = 0\<rparr>, \<lparr>x = 30, y = 0\<rparr>]"
  by (simp add: resampleUniform_def distance_def interpolate_def Let_def)

lemma distance_nonneg: "0 \<le> distance p q"
  by (simp add: distance_def)

lemma distance_self: "distance p p = 0"
  by (simp add: distance_def)

lemma distance_zero_eq: "distance p q = 0 \<Longrightarrow> p = (q::Vector)"
proof -
  assume "distance p q = 0"
  then have "(x p - x q)\<^sup>2 + (y p - y q)\<^sup>2 = 0"
    by (simp add: distance_def)
  then have "x p = x q" "y p = y q"
    by (simp_all add: sum_power2_eq_zero_iff)
  then show ?thesis by simp
qed

lemma pathLength_single: "pathLength [p] = 0"
  by (simp add: pathLength_def)

lemma pathLength_Cons: "pathLength (p # q # qs) = distance p q + pathLength (q # qs)"
  by (simp add: pathLength_def)

lemma pathLength_nonneg: "0 \<le> pathLength pts"
proof (induction pts rule: consecutiveDistances.induct)
  case (1 p q rest)
  then show ?case by (simp add: pathLength_def distance_nonneg)
qed (simp_all add: pathLength_def)

text \<open>Counting the multiples of the density up to an accumulated distance.\<close>

lemma crossings_bounds:
  assumes "0 < d" "0 \<le> a"
  shows "real (nat \<lfloor>a / d\<rfloor>) * d \<le> a" and "a < (real (nat \<lfloor>a / d\<rfloor>) + 1) * d"
proof -
  have nn: "0 \<le> \<lfloor>a / d\<rfloor>" using assms by simp
  then have r: "real (nat \<lfloor>a / d\<rfloor>) = of_int \<lfloor>a / d\<rfloor>" by simp
  show "real (nat \<lfloor>a / d\<rfloor>) * d \<le> a"
    unfolding r using floor_divide_lower[OF assms(1), of a] .
  show "a < (real (nat \<lfloor>a / d\<rfloor>) + 1) * d"
    unfolding r using floor_divide_upper[OF assms(1), of a] .
qed

lemma crossings_le_iff:
  assumes "0 < d" "0 \<le> a"
  shows "k \<le> nat \<lfloor>a / d\<rfloor> \<longleftrightarrow> real k * d \<le> a"
proof
  assume "k \<le> nat \<lfloor>a / d\<rfloor>"
  then have "real k * d \<le> real (nat \<lfloor>a / d\<rfloor>) * d"
    using assms(1) by (simp add: mult_right_mono)
  with crossings_bounds(1)[OF assms] show "real k * d \<le> a" by linarith
next
  assume "real k * d \<le> a"
  show "k \<le> nat \<lfloor>a / d\<rfloor>"
  proof (rule ccontr)
    assume "\<not> k \<le> nat \<lfloor>a / d\<rfloor>"
    then have "real (nat \<lfloor>a / d\<rfloor>) + 1 \<le> real k" by linarith
    then have "(real (nat \<lfloor>a / d\<rfloor>) + 1) * d \<le> real k * d"
      using assms(1) by (simp add: mult_right_mono)
    with crossings_bounds(2)[OF assms] \<open>real k * d \<le> a\<close> show False by linarith
  qed
qed

lemma crossings_shift:
  assumes "0 < d" "0 \<le> a"
  shows "nat \<lfloor>(a + real n * d) / d\<rfloor> = nat \<lfloor>a / d\<rfloor> + n"
proof -
  have "(a + real n * d) / d = a / d + of_int (int n)"
    using assms(1) by (simp add: field_simps)
  then have "\<lfloor>(a + real n * d) / d\<rfloor> = \<lfloor>a / d\<rfloor> + int n"
    by (simp only: floor_add_int)
  moreover have "0 \<le> \<lfloor>a / d\<rfloor>" using assms by simp
  ultimately show ?thesis by (simp add: nat_add_distrib)
qed

lemma crossings_small:
  assumes "0 < d" "0 \<le> a" "a < d"
  shows "nat \<lfloor>a / d\<rfloor> = 0"
proof -
  have "\<lfloor>a / d\<rfloor> = 0" using assms by (simp add: floor_eq_iff)
  then show ?thesis by simp
qed

lemma map_upt_shift:
  "map f [Suc n..<Suc (n + m)] = map (\<lambda>j. f (n + j)) [1..<Suc m]"
  by (induction m) simp_all

lemma resampleWalk_arc_length:
  assumes "0 < d"
  shows "0 \<le> acc \<Longrightarrow> acc < d \<Longrightarrow>
     fst (resampleWalk d acc p qs) =
       map (\<lambda>k. pointAt p qs (real k * d - acc))
           [1..<Suc (nat \<lfloor>(acc + pathLength (p # qs)) / d\<rfloor>)] \<and>
     snd (resampleWalk d acc p qs) =
       acc + pathLength (p # qs) - real (nat \<lfloor>(acc + pathLength (p # qs)) / d\<rfloor>) * d"
proof (induction qs arbitrary: acc p)
  case Nil
  then show ?case
    using assms by (simp add: pathLength_single crossings_small)
next
  case (Cons q qs)
  define len where "len = distance p q"
  define n where "n = nat \<lfloor>(acc + len) / d\<rfloor>"
  define acc' where "acc' = acc + len - real n * d"
  define m where "m = nat \<lfloor>(acc' + pathLength (q # qs)) / d\<rfloor>"
  have len0: "0 \<le> len" by (simp add: len_def distance_nonneg)
  have al: "0 \<le> acc + len" using Cons.prems len0 by simp
  have lo: "real n * d \<le> acc + len" and hi: "acc + len < (real n + 1) * d"
    unfolding n_def using crossings_bounds[OF assms al] by simp_all
  have acc'0: "0 \<le> acc'" and acc'd: "acc' < d"
    using lo hi by (simp_all add: acc'_def algebra_simps)
  have pl: "0 \<le> acc' + pathLength (q # qs)"
    using acc'0 pathLength_nonneg[of "q # qs"] by simp
  have total: "acc + pathLength (p # q # qs) = (acc' + pathLength (q # qs)) + real n * d"
    by (simp add: pathLength_Cons acc'_def len_def)
  have count: "nat \<lfloor>(acc + pathLength (p # q # qs)) / d\<rfloor> = m + n"
    unfolding total m_def by (rule crossings_shift[OF assms pl])
  have IH: "fst (resampleWalk d acc' q qs) =
              map (\<lambda>k. pointAt q qs (real k * d - acc')) [1..<Suc m]"
           "snd (resampleWalk d acc' q qs) = acc' + pathLength (q # qs) - real m * d"
    using Cons.IH[OF acc'0 acc'd, of q] by (simp_all add: m_def)
  have within: "pointAt p (q # qs) s = interpolate p q (s / len)" if "s \<le> len" "0 < len" for s
    using that by (simp add: len_def)
  have beyond: "pointAt p (q # qs) s = pointAt q qs (s - len)" if "\<not> (s \<le> len \<and> 0 < len)" for s
    using that by (auto simp: len_def)
  have first: "interpolate p q ((real k * d - acc) / len) = pointAt p (q # qs) (real k * d - acc)"
    if "k \<in> set [1..<Suc n]" for k
  proof -
    from that have k: "1 \<le> k" "k \<le> n" by auto
    then have "real k * d \<le> acc + len"
      using crossings_le_iff[OF assms al, of k] by (simp add: n_def)
    moreover have "d \<le> real k * d" using k(1) assms by simp
    ultimately have "real k * d - acc \<le> len" "0 < len"
      using Cons.prems by linarith+
    then show ?thesis by (simp only: within)
  qed
  have later: "pointAt q qs (real j * d - acc') = pointAt p (q # qs) (real (n + j) * d - acc)"
    if "j \<in> set [1..<Suc m]" for j
  proof -
    from that have "\<not> n + j \<le> n" by auto
    then have "\<not> real (n + j) * d \<le> acc + len"
      using crossings_le_iff[OF assms al, of "n + j"] by (simp add: n_def)
    then have "\<not> (real (n + j) * d - acc \<le> len \<and> 0 < len)" by linarith
    then have "pointAt p (q # qs) (real (n + j) * d - acc) =
               pointAt q qs (real (n + j) * d - acc - len)"
      by (rule beyond)
    moreover have "real (n + j) * d - acc - len = real j * d - acc'"
      by (simp add: acc'_def algebra_simps)
    ultimately show ?thesis by simp
  qed
  have split: "[1..<Suc (m + n)] = [1..<Suc n] @ [Suc n..<Suc (n + m)]"
    using upt_add_eq_append[of 1 "Suc n" m] by (simp add: add.commute)
  have "fst (resampleWalk d acc p (q # qs)) =
          map (\<lambda>k. interpolate p q ((real k * d - acc) / len)) [1..<Suc n] @
          map (\<lambda>k. pointAt q qs (real k * d - acc')) [1..<Suc m]"
    by (simp add: Let_def IH(1) len_def[symmetric] n_def[symmetric] acc'_def[symmetric])
  also have "\<dots> = map (\<lambda>k. pointAt p (q # qs) (real k * d - acc)) [1..<Suc n] @
                   map (\<lambda>j. pointAt p (q # qs) (real (n + j) * d - acc)) [1..<Suc m]"
    using first later by (simp only: map_eq_conv[THEN iffD2] cong: map_cong) 
  also have "\<dots> = map (\<lambda>k. pointAt p (q # qs) (real k * d - acc)) [1..<Suc (m + n)]"
    by (simp only: split map_append map_upt_shift)
  finally have A: "fst (resampleWalk d acc p (q # qs)) =
      map (\<lambda>k. pointAt p (q # qs) (real k * d - acc))
          [1..<Suc (nat \<lfloor>(acc + pathLength (p # q # qs)) / d\<rfloor>)]"
    by (simp only: count)
  have "snd (resampleWalk d acc p (q # qs)) = acc' + pathLength (q # qs) - real m * d"
    by (simp add: Let_def IH(2) len_def[symmetric] n_def[symmetric] acc'_def[symmetric])
  also have "\<dots> = acc + pathLength (p # q # qs) - real (m + n) * d"
    by (simp add: total algebra_simps)
  finally have B: "snd (resampleWalk d acc p (q # qs)) =
      acc + pathLength (p # q # qs) - real (nat \<lfloor>(acc + pathLength (p # q # qs)) / d\<rfloor>) * d"
    by (simp only: count)
  show ?case using A B by simp
qed

lemma interpolate_0: "interpolate p q 0 = (p::Vector)"
  by (simp add: interpolate_def)

lemma interpolate_1: "interpolate p q 1 = (q::Vector)"
  by (simp add: interpolate_def)

lemma distance_triangle: "distance p r \<le> distance p q + distance q r"
proof -
  have c: "distance a b = cmod (Complex (x a - x b) (y a - y b))" for a b
    by (simp add: distance_def cmod_def)
  have "Complex (x p - x r) (y p - y r) =
        Complex (x p - x q) (y p - y q) + Complex (x q - x r) (y q - y r)"
    by (simp add: complex_eq_iff)
  then show ?thesis
    unfolding c using norm_triangle_ineq[of "Complex (x p - x q) (y p - y q)" "Complex (x q - x r) (y q - y r)"]
    by simp
qed

lemma pointAt_zero: "pointAt p qs 0 = p"
proof (induction qs arbitrary: p)
  case Nil
  then show ?case by simp
next
  case (Cons q qs)
  show ?case
  proof (cases "0 < distance p q")
    case True
    then show ?thesis by (simp add: interpolate_0)
  next
    case False
    then have "distance p q = 0" using distance_nonneg[of p q] by linarith
    then have "p = q" by (rule distance_zero_eq)
    then show ?thesis using Cons.IH[of q] by (simp add: distance_self)
  qed
qed

lemma pointAt_lipschitz:
  "s \<le> t \<Longrightarrow> distance (pointAt p qs s) (pointAt p qs t) \<le> t - s"
proof (induction qs arbitrary: p s t)
  case Nil
  then show ?case by (simp add: distance_self)
next
  case (Cons q qs)
  define len where "len = distance p q"
  have len0: "0 \<le> len" by (simp add: len_def distance_nonneg)
  have within: "pointAt p (q # qs) u = interpolate p q (u / len)" if "u \<le> len" "0 < len" for u
    using that by (simp add: len_def)
  have beyond: "pointAt p (q # qs) u = pointAt q qs (u - len)" if "\<not> (u \<le> len \<and> 0 < len)" for u
    using that by (auto simp: len_def)
  consider (both) "t \<le> len" "0 < len" | (split) "s \<le> len" "0 < len" "len < t"
    | (none) "\<not> (s \<le> len \<and> 0 < len)"
    using Cons.prems by linarith
  then show ?case
  proof cases
    case both
    then have s: "s \<le> len" using Cons.prems by simp
    have "distance (pointAt p (q # qs) s) (pointAt p (q # qs) t) = \<bar>t / len - s / len\<bar> * len"
      by (simp only: within[OF s both(2)] within[OF both] distance_interpolate len_def)
    also have "\<dots> = t - s"
      using both(2) Cons.prems by (simp add: field_simps abs_if)
    finally show ?thesis by simp
  next
    case split
    have t: "\<not> (t \<le> len \<and> 0 < len)" using split by simp
    have "distance (pointAt p (q # qs) s) (pointAt p (q # qs) t) =
          distance (interpolate p q (s / len)) (pointAt q qs (t - len))"
      by (simp only: within[OF split(1,2)] beyond[OF t])
    also have "\<dots> \<le> distance (interpolate p q (s / len)) q + distance q (pointAt q qs (t - len))"
      by (rule distance_triangle)
    also have "distance (interpolate p q (s / len)) q = \<bar>1 - s / len\<bar> * len"
      using distance_interpolate[of p q "s / len" 1] by (simp add: interpolate_1 len_def)
    also have "\<bar>1 - s / len\<bar> * len = len - s"
      using split by (simp add: field_simps abs_if)
    also have "distance q (pointAt q qs (t - len)) \<le> (t - len) - 0"
      using Cons.IH[of 0 "t - len" q] split(3) by (simp add: pointAt_zero)
    finally show ?thesis by simp
  next
    case none
    have t: "\<not> (t \<le> len \<and> 0 < len)" using none Cons.prems by linarith
    have "distance (pointAt p (q # qs) s) (pointAt p (q # qs) t) =
          distance (pointAt q qs (s - len)) (pointAt q qs (t - len))"
      by (simp only: beyond[OF none] beyond[OF t])
    also have "\<dots> \<le> (t - len) - (s - len)"
      using Cons.prems by (intro Cons.IH) simp
    finally show ?thesis by simp
  qed
qed

text \<open>
  Claim C1, as the resampling has it. For every density \<open>d > 0\<close> and every non-empty
  raw sequence (so for the samples of every path), the output of \<open>resampleUniform\<close>
  is the sequence of the points of the raw polyline at the accumulated distances
  \<open>0, d, 2 d, ...\<close> measured along the polyline, followed by the literal last point
  unless the polyline's length is a multiple of \<open>d\<close>. Consecutive output points
  before the final one are therefore \<open>d\<close> apart along the polyline, and their
  Euclidean distance is at most \<open>d\<close>.
\<close>

theorem resampleUniform_arc_length:
  assumes "0 < d"
  shows "resampleUniform (p # rest) d =
           map (\<lambda>k. pointAt p rest (real k * d))
               [0..<Suc (nat \<lfloor>pathLength (p # rest) / d\<rfloor>)] @
           (if real (nat \<lfloor>pathLength (p # rest) / d\<rfloor>) * d = pathLength (p # rest)
            then [] else [last (p # rest)]) \<and>
         (\<forall>k. k < nat \<lfloor>pathLength (p # rest) / d\<rfloor> \<longrightarrow>
            distance (resampleUniform (p # rest) d ! k) (resampleUniform (p # rest) d ! Suc k) \<le> d)"
proof -
  define N where "N = nat \<lfloor>pathLength (p # rest) / d\<rfloor>"
  have w: "fst (resampleWalk d 0 p rest) = map (\<lambda>k. pointAt p rest (real k * d)) [1..<Suc N]"
          "snd (resampleWalk d 0 p rest) = pathLength (p # rest) - real N * d"
    using resampleWalk_arc_length[OF assms, of 0 p rest] assms by (simp_all add: N_def)
  have upt: "[0..<Suc N] = 0 # [1..<Suc N]"
    by (simp add: upt_conv_Cons del: upt_Suc)
  have A: "resampleUniform (p # rest) d =
           map (\<lambda>k. pointAt p rest (real k * d)) [0..<Suc N] @
           (if real N * d = pathLength (p # rest) then [] else [last (p # rest)])"
    unfolding upt by (simp add: resampleUniform_def Let_def w pointAt_zero del: upt_Suc)
  have B: "distance (resampleUniform (p # rest) d ! k) (resampleUniform (p # rest) d ! Suc k) \<le> d"
    if "k < N" for k
  proof -
    have len: "length (map (\<lambda>k. pointAt p rest (real k * d)) [0..<Suc N]) = Suc N" by simp
    have nk: "resampleUniform (p # rest) d ! j = pointAt p rest (real j * d)" if "j < Suc N" for j
      unfolding A using that len by (simp add: nth_append del: upt_Suc)
    have "distance (pointAt p rest (real k * d)) (pointAt p rest (real (Suc k) * d)) \<le>
          real (Suc k) * d - real k * d"
      using assms by (intro pointAt_lipschitz) (simp add: algebra_simps)
    then show ?thesis using that by (simp add: nk algebra_simps)
  qed
  show ?thesis using A B unfolding N_def by blast
qed

theorem resampleUniform_arc_length_witness:
  "(0::real) < 3 \<and> (1::nat) < nat \<lfloor>pathLength [\<lparr>x = 0, y = 0\<rparr>, \<lparr>x = 4, y = 0\<rparr>, \<lparr>x = 4, y = 6\<rparr>] / 3\<rfloor> \<and>
   distance (resampleUniform [\<lparr>x = 0, y = 0\<rparr>, \<lparr>x = 4, y = 0\<rparr>, \<lparr>x = 4, y = 6\<rparr>] 3 ! 1)
            (resampleUniform [\<lparr>x = 0, y = 0\<rparr>, \<lparr>x = 4, y = 0\<rparr>, \<lparr>x = 4, y = 6\<rparr>] 3 ! Suc 1) \<le> 3 \<and>
   resampleUniform [\<lparr>x = 0, y = 0\<rparr>, \<lparr>x = 4, y = 0\<rparr>, \<lparr>x = 4, y = 6\<rparr>] 3 =
     [\<lparr>x = 0, y = 0\<rparr>, \<lparr>x = 3, y = 0\<rparr>, \<lparr>x = 4, y = 2\<rparr>, \<lparr>x = 4, y = 5\<rparr>, \<lparr>x = 4, y = 6\<rparr>]"
proof -
  have pl: "pathLength [\<lparr>x = 0, y = 0\<rparr>, \<lparr>x = 4, y = 0\<rparr>, \<lparr>x = 4, y = 6\<rparr>] = 10"
    by (simp add: pathLength_def distance_def)
  have r: "resampleUniform [\<lparr>x = 0, y = 0\<rparr>, \<lparr>x = 4, y = 0\<rparr>, \<lparr>x = 4, y = 6\<rparr>] 3 =
     [\<lparr>x = 0, y = 0\<rparr>, \<lparr>x = 3, y = 0\<rparr>, \<lparr>x = 4, y = 2\<rparr>, \<lparr>x = 4, y = 5\<rparr>, \<lparr>x = 4, y = 6\<rparr>]"
    by (simp add: resampleUniform_def distance_def interpolate_def Let_def upt_rec)
  have d: "(0::real) < 3" by simp
  have c: "(1::nat) < nat \<lfloor>pathLength [\<lparr>x = 0, y = 0\<rparr>, \<lparr>x = 4, y = 0\<rparr>, \<lparr>x = 4, y = 6\<rparr>] / 3\<rfloor>"
    by (simp add: pl)
  have "distance (resampleUniform [\<lparr>x = 0, y = 0\<rparr>, \<lparr>x = 4, y = 0\<rparr>, \<lparr>x = 4, y = 6\<rparr>] 3 ! 1)
            (resampleUniform [\<lparr>x = 0, y = 0\<rparr>, \<lparr>x = 4, y = 0\<rparr>, \<lparr>x = 4, y = 6\<rparr>] 3 ! Suc 1) \<le> 3"
    using resampleUniform_arc_length[OF d, of "\<lparr>x = 0, y = 0\<rparr>" "[\<lparr>x = 4, y = 0\<rparr>, \<lparr>x = 4, y = 6\<rparr>]",
            THEN conjunct2, rule_format, OF c] .
  then show ?thesis using c r by simp
qed


end
